theory Spec2Isabelle
  imports Main "HOL-Library.Word"
begin

section \<open>The x/feemarket keeper: store access layer and message pool\<close>

text \<open>
  A shallow embedding of \<^verbatim>\<open>x/feemarket/keeper/keeper.go\<close> and of the generic
  \<^verbatim>\<open>MessagePool\<close> of package \<^verbatim>\<open>types\<close>. Go values returned as a pair
  \<^verbatim>\<open>(value, error)\<close> are pairs \<open>(value, error option)\<close>, with \<open>None\<close> for a
  \<^verbatim>\<open>nil\<close> error. A Go string and a Go byte slice are both sequences of bytes and
  are modelled by \<open>string\<close> (a list of 8-bit characters); the conversions
  \<^verbatim>\<open>string(bz)\<close> and \<^verbatim>\<open>[]byte(s)\<close> are the identity. A byte slice that may
  be \<^verbatim>\<open>nil\<close> is a \<open>string option\<close>.
\<close>

subsection \<open>Errors\<close>

datatype num_err = ErrSyntax | ErrRange

record NumError =
  Func :: string
  Num :: string
  Err :: num_err

text \<open>
  \<open>StrconvError\<close> wraps a \<^verbatim>\<open>*strconv.NumError\<close>, \<open>ErrResolverNotSet\<close> is
  \<^verbatim>\<open>types.ErrResolverNotSet\<close>, \<open>MalformedRecord\<close> is the spec's error kind for bytes
  that are not a record of the expected shape, and \<open>OtherError msg\<close> stands for any
  other error value (those of a record codec and of an injected denom resolver).
\<close>

datatype error =
    StrconvError NumError
  | ErrResolverNotSet
  | MalformedRecord
  | OtherError string

type_synonym uint64 = "64 word"
type_synonym int64 = "64 word"

subsection \<open>\<^verbatim>\<open>strconv.ParseInt(s, 10, 64)\<close> and \<^verbatim>\<open>strconv.FormatInt(i, 10)\<close>\<close>

text \<open>
  The two functions of Go's standard library that the keeper calls, at the constant
  arguments of its two call sites (base 10, bit size 64). With a non-zero base the
  underscore and the base-prefix branches of \<^verbatim>\<open>ParseUint\<close> are dead, so they are
  not written. An \<open>int64\<close> is a 64-bit word read by \<open>sint\<close>; the conversions
  \<^verbatim>\<open>uint64(i)\<close> and \<^verbatim>\<open>int64(u)\<close> keep the bits.
\<close>

definition lower :: "char \<Rightarrow> char" where
  \<comment> \<open>\<^verbatim>\<open>c | ('x' - 'X')\<close>\<close>
  "lower c = char_of (or (of_char c :: nat) 32)"

definition digit_of :: "char \<Rightarrow> nat option" where
  \<comment> \<open>the \<^verbatim>\<open>switch\<close> on \<^verbatim>\<open>c\<close> in the loop of \<^verbatim>\<open>ParseUint\<close>; \<open>None\<close> is its
      \<^verbatim>\<open>default\<close> branch\<close>
  "digit_of c =
     (if (48::nat) \<le> of_char c \<and> (of_char c :: nat) \<le> 57 then Some (of_char c - 48)
      else if (97::nat) \<le> of_char (lower c) \<and> (of_char (lower c) :: nat) \<le> 122
        then Some (of_char (lower c) - 97 + 10)
      else None)"

definition syntaxError :: "string \<Rightarrow> string \<Rightarrow> NumError" where
  "syntaxError fn str = \<lparr>Func = fn, Num = str, Err = ErrSyntax\<rparr>"

definition rangeError :: "string \<Rightarrow> string \<Rightarrow> NumError" where
  "rangeError fn str = \<lparr>Func = fn, Num = str, Err = ErrRange\<rparr>"

definition maxUint64 :: uint64 where
  "maxUint64 = - 1"

definition cutoff10 :: uint64 where
  \<comment> \<open>\<^verbatim>\<open>maxUint64/10 + 1\<close>: the smallest number whose tenfold exceeds \<^verbatim>\<open>maxUint64\<close>\<close>
  "cutoff10 = maxUint64 div 10 + 1"

fun ParseUint_loop :: "string \<Rightarrow> uint64 \<Rightarrow> string \<Rightarrow> uint64 \<times> NumError option" where
  "ParseUint_loop s0 n [] = (n, None)"
| "ParseUint_loop s0 n (c # cs) =
     (case digit_of c of
        None \<Rightarrow> (0, Some (syntaxError ''ParseUint'' s0))
      | Some d \<Rightarrow>
          if d \<ge> 10 then (0, Some (syntaxError ''ParseUint'' s0))
          else if n \<ge> cutoff10 then (maxUint64, Some (rangeError ''ParseUint'' s0))
          else
            let n10 = n * 10; n1 = n10 + of_nat d in
            if n1 < n10 \<or> n1 > maxUint64 then (maxUint64, Some (rangeError ''ParseUint'' s0))
            else ParseUint_loop s0 n1 cs)"

definition ParseUint :: "string \<Rightarrow> uint64 \<times> NumError option" where
  "ParseUint s =
     (if s = [] then (0, Some (syntaxError ''ParseUint'' s))
      else ParseUint_loop s 0 s)"

definition ParseInt :: "string \<Rightarrow> int64 \<times> NumError option" where
  "ParseInt s0 =
     (if s0 = [] then (0, Some (syntaxError ''ParseInt'' s0))
      else
        let neg = (hd s0 = CHR ''-'');
            s = (if hd s0 = CHR ''+'' \<or> hd s0 = CHR ''-'' then tl s0 else s0);
            (un, err) = ParseUint s;
            cutoff = (push_bit 63 1 :: uint64)
        in if err \<noteq> None \<and> Err (the err) \<noteq> ErrRange
             then (0, Some ((the err)\<lparr>Func := ''ParseInt'', Num := s0\<rparr>))
           else if \<not> neg \<and> un \<ge> cutoff then (cutoff - 1, Some (rangeError ''ParseInt'' s0))
           else if neg \<and> un > cutoff then (- cutoff, Some (rangeError ''ParseInt'' s0))
           else (if neg then - un else un, None))"

function formatBits :: "string \<Rightarrow> uint64 \<Rightarrow> string" where
  \<comment> \<open>the decimal digits of \<open>u\<close>, written from the least significant one in front of
      \<open>a\<close>, as \<^verbatim>\<open>formatBits\<close> fills its buffer from the end\<close>
  "formatBits a u =
     (if u \<ge> 10 then formatBits (char_of (48 + unat (u mod 10)) # a) (u div 10)
      else char_of (48 + unat u) # a)"
  by pat_completeness auto
termination
  by (relation "measure (\<lambda>(a, u). unat u)") (auto simp: unat_div word_le_nat_alt)

declare formatBits.simps [simp del]

definition FormatInt :: "int64 \<Rightarrow> string" where
  "FormatInt i =
     (if sint i < 0 then CHR ''-'' # formatBits [] (- i) else formatBits [] i)"


subsection \<open>Spec-side reading of a decimal numeral\<close>

text \<open>
  What the stored bytes denote when they are read as a decimal integer in the spec's
  sense: an optional sign followed by one or more decimal digits. This definition follows
  the spec's words, not the code; the theorems below compare \<open>ParseInt\<close> with it.
\<close>

definition is_digit :: "char \<Rightarrow> bool" where
  "is_digit c = ((48::nat) \<le> of_char c \<and> (of_char c :: nat) \<le> 57)"

definition dec_val :: "nat \<Rightarrow> string \<Rightarrow> nat" where
  "dec_val a cs = foldl (\<lambda>a c. a * 10 + (of_char c - 48)) a cs"

definition decimal_int :: "string \<Rightarrow> int option" where
  "decimal_int s =
     (let neg = (s \<noteq> [] \<and> hd s = CHR ''-'');
          ds = (if s \<noteq> [] \<and> (hd s = CHR ''+'' \<or> hd s = CHR ''-'') then tl s else s)
      in if ds \<noteq> [] \<and> list_all is_digit ds
         then Some (if neg then - int (dec_val 0 ds) else int (dec_val 0 ds))
         else None)"

subsection \<open>Data model\<close>

text \<open>
  \<^verbatim>\<open>sdkmath.LegacyDec\<close> wraps a pointer to a big integer holding the value scaled by
  \<open>10 ^ 18\<close>; the zero value of the struct holds a \<^verbatim>\<open>nil\<close> pointer (\<open>None\<close>).
\<close>

type_synonym LegacyDec = "int option"

definition LegacyOneDec :: LegacyDec where
  "LegacyOneDec = Some (10 ^ 18)"

definition LegacyZeroDec :: LegacyDec where
  "LegacyZeroDec = Some 0"

text \<open>
  Modelled from the spec: the declarations of \<^verbatim>\<open>types.Params\<close> and
  \<^verbatim>\<open>types.State\<close> are not part of the source at hand. The fields are those the
  spec's data model lists, which are also exactly the fields the two pool factories in
  \<^verbatim>\<open>NewKeeper\<close> initialise. The capacity of the \<^verbatim>\<open>Window\<close> slice is not
  modelled, and a \<^verbatim>\<open>nil\<close> slice is the empty list.
\<close>

record Params =
  Alpha :: LegacyDec
  Beta :: LegacyDec
  Gamma :: LegacyDec
  Delta :: LegacyDec
  MinBaseGasPrice :: LegacyDec
  MinLearningRate :: LegacyDec
  MaxLearningRate :: LegacyDec

record State =
  BaseGasPrice :: LegacyDec
  LearningRate :: LegacyDec
  Window :: "uint64 list"

definition Params_zero :: Params where
  \<comment> \<open>\<^verbatim>\<open>types.Params{}\<close>\<close>
  "Params_zero = \<lparr>Alpha = None, Beta = None, Gamma = None, Delta = None,
     MinBaseGasPrice = None, MinLearningRate = None, MaxLearningRate = None\<rparr>"

definition State_zero :: State where
  \<comment> \<open>\<^verbatim>\<open>types.State{}\<close>\<close>
  "State_zero = \<lparr>BaseGasPrice = None, LearningRate = None, Window = []\<rparr>"

record DecCoin =
  Denom :: string
  Amount :: LegacyDec

definition DecCoin_zero :: DecCoin where
  \<comment> \<open>\<^verbatim>\<open>sdk.DecCoin{}\<close>\<close>
  "DecCoin_zero = \<lparr>Denom = [], Amount = None\<rparr>"

subsection \<open>The record codec\<close>

text \<open>
  Modelled from the spec: the methods \<^verbatim>\<open>Marshal\<close> and \<^verbatim>\<open>Unmarshal\<close> of
  \<^verbatim>\<open>types.State\<close> and \<^verbatim>\<open>types.Params\<close> are generated code outside the source at
  hand. The spec gives their contract, \<^verbatim>\<open>Decode(bytes) -> (record, error)\<close> and
  \<^verbatim>\<open>Encode(record) -> (bytes, error)\<close>, and leaves the wire format open, so the wire
  format is a parameter: a \<open>Wire\<close> holds the pure decoding and encoding functions.
  The byte buffer given to a decoder may be \<^verbatim>\<open>nil\<close> (\<open>None\<close>).
\<close>

record Wire =
  decodeState :: "string option \<Rightarrow> error + State"
  encodeState :: "State \<Rightarrow> error + string"
  decodeParams :: "string option \<Rightarrow> error + Params"
  encodeParams :: "Params \<Rightarrow> error + string"

text \<open>
  Modelled from the spec: \<^verbatim>\<open>Unmarshal\<close> decodes into its receiver. The spec says
  that decoding into a previously used instance keeps the entries its \<^verbatim>\<open>Window\<close>
  already holds unless the caller empties it first, so the decoded entries are appended
  to those of the receiver. What a failed decode leaves in the receiver is not specified;
  here it leaves the receiver as it was.
\<close>

definition State_Unmarshal :: "Wire \<Rightarrow> string option \<Rightarrow> State \<Rightarrow> State \<times> error option" where
  "State_Unmarshal w bz dst =
     (case decodeState w bz of
        Inl e \<Rightarrow> (dst, Some e)
      | Inr r \<Rightarrow> (dst\<lparr>BaseGasPrice := BaseGasPrice r, LearningRate := LearningRate r,
                      Window := Window dst @ Window r\<rparr>, None))"

definition Params_Unmarshal :: "Wire \<Rightarrow> string option \<Rightarrow> Params \<Rightarrow> Params \<times> error option" where
  "Params_Unmarshal w bz dst =
     (case decodeParams w bz of
        Inl e \<Rightarrow> (dst, Some e)
      | Inr r \<Rightarrow> (r, None))"

definition State_Marshal :: "Wire \<Rightarrow> State \<Rightarrow> error + string" where
  "State_Marshal w s = encodeState w s"

definition Params_Marshal :: "Wire \<Rightarrow> Params \<Rightarrow> error + string" where
  "Params_Marshal w p = encodeParams w p"

subsection \<open>The key-value store and the execution context\<close>

text \<open>
  Modelled from the spec: the key constants \<^verbatim>\<open>types.KeyEnabledHeight\<close>,
  \<^verbatim>\<open>types.KeyParams\<close> and \<^verbatim>\<open>types.KeyState\<close> are declared outside the source at
  hand; the spec names them as three independent logical keys.
\<close>

datatype StoreKey = KeyEnabledHeight | KeyParams | KeyState

text \<open>
  \<open>kvStore\<close> is the module's store, \<^verbatim>\<open>ctx.KVStore(k.storeKey)\<close>: \<^verbatim>\<open>Get\<close> is the
  lookup (\<^verbatim>\<open>nil\<close>, here \<open>None\<close>, for an absent key) and \<^verbatim>\<open>Set\<close> the update.
  \<open>storePooled\<close> tells whether the store handle also implements
  \<^verbatim>\<open>pooledKVStore\<close>, and \<open>storeReleases\<close> counts the calls of its \<^verbatim>\<open>Release\<close>.
\<close>

record Context =
  kvStore :: "StoreKey \<rightharpoonup> string"
  storePooled :: bool
  storeReleases :: nat

definition releaseStore :: "Context \<Rightarrow> Context" where
  \<comment> \<open>\<^verbatim>\<open>if store, ok := store.(pooledKVStore); ok { defer store.Release() }\<close>\<close>
  "releaseStore ctx =
     (if storePooled ctx then ctx\<lparr>storeReleases := Suc (storeReleases ctx)\<rparr> else ctx)"

subsection \<open>\<^verbatim>\<open>MessagePool\<close>\<close>

text \<open>
  The pooled values are pointers. A pool is modelled together with the heap cells of the
  instances its factory has built: \<open>cells\<close> maps a pointer to the instance it refers to,
  \<open>allocated\<close> is the number of instances built so far (the pointers \<open>0 ..< allocated\<close>),
  \<open>idle\<close> is the content of the underlying \<^verbatim>\<open>sync.Pool\<close> and \<open>New\<close> is the value
  the factory builds. \<^verbatim>\<open>sync.Pool.Get\<close> may return any idle item or ignore them and
  call the factory; the choice is the argument \<open>pick\<close>: \<open>Some i\<close> takes the idle item
  at position \<open>i\<close> when there is one, anything else builds a new instance. The garbage
  collector dropping idle items is not modelled.
\<close>

type_synonym ref = nat

record 'a MessagePool =
  New :: 'a
  cells :: "ref \<Rightarrow> 'a"
  allocated :: nat
  idle :: "ref list"

definition NewMessagePool :: "'a \<Rightarrow> 'a MessagePool" where
  "NewMessagePool factory = \<lparr>New = factory, cells = (\<lambda>_. factory), allocated = 0, idle = []\<rparr>"

definition sync_Pool_Get :: "nat option \<Rightarrow> 'a MessagePool \<Rightarrow> ref \<times> 'a MessagePool" where
  "sync_Pool_Get pick p =
     (let fresh = (allocated p,
            p\<lparr>cells := (cells p)(allocated p := New p), allocated := Suc (allocated p)\<rparr>)
      in case pick of
           None \<Rightarrow> fresh
         | Some i \<Rightarrow>
             if i < length (idle p)
             then (idle p ! i, p\<lparr>idle := take i (idle p) @ drop (Suc i) (idle p)\<rparr>)
             else fresh)"

text \<open>
  A \<^verbatim>\<open>PooledMessage\<close> holds the pointer \<^verbatim>\<open>Value\<close> and the pool it came from. Its
  \<^verbatim>\<open>pool\<close> field is unexported, so a handle is either the zero value
  \<^verbatim>\<open>PooledMessage{}\<close> or one built by \<^verbatim>\<open>MessagePool.Get\<close>. A keeper owns two
  pools, named by \<open>PoolRef\<close>.
\<close>

datatype PoolRef = ParamsPool | StatePool

datatype PooledMessage = ZeroMessage | Pooled (Value: ref) (pool: PoolRef)

definition MessagePool_Get ::
  "PoolRef \<Rightarrow> nat option \<Rightarrow> 'a MessagePool \<Rightarrow> PooledMessage \<times> 'a MessagePool" where
  "MessagePool_Get self pick p =
     (let (obj, p') = sync_Pool_Get pick p in (Pooled obj self, p'))"

definition MessagePool_put :: "ref \<Rightarrow> 'a MessagePool \<Rightarrow> 'a MessagePool" where
  "MessagePool_put obj p = p\<lparr>idle := idle p @ [obj]\<rparr>"

definition checked_out :: "'a MessagePool \<Rightarrow> ref set" where
  \<comment> \<open>the instances built by the factory that are not in the pool\<close>
  "checked_out p = {..<allocated p} - set (idle p)"


subsection \<open>The keeper\<close>

record DenomResolver =
  ConvertToDenom :: "Context \<Rightarrow> DecCoin \<Rightarrow> string \<Rightarrow> DecCoin \<times> error option"

text \<open>
  The codec, the store key and the account keeper are held by the keeper and never
  inspected by the operations below, so their types are left open. A \<^verbatim>\<open>nil\<close> resolver
  is \<open>None\<close>. The two pools are reached through pointers in the source; here the keeper
  record holds their state, and an operation that uses a pool returns the keeper with it.
\<close>

record ('c, 'k, 'a) Keeper =
  cdc :: 'c
  storeKey :: 'k
  ak :: 'a
  resolver :: "DenomResolver option"
  paramsPool :: "Params MessagePool"
  statePool :: "State MessagePool"
  authority :: string

text \<open>
  \<^verbatim>\<open>sdk.AccAddressFromBech32\<close> belongs to the host framework and is the parameter
  \<open>AccAddressFromBech32\<close>: it returns the decoded address or an error. A panic of the
  constructor is \<open>Inl\<close> with the panic message.
\<close>

definition NewKeeper ::
  "(string \<Rightarrow> error + string) \<Rightarrow> 'c \<Rightarrow> 'k \<Rightarrow> 'a \<Rightarrow> DenomResolver option \<Rightarrow> string
     \<Rightarrow> string + ('c, 'k, 'a) Keeper" where
  "NewKeeper AccAddressFromBech32 cdc' storeKey' authKeeper resolver' authority' =
     (case AccAddressFromBech32 authority' of
        Inl err \<Rightarrow> Inl (''invalid authority address: '' @ authority')
      | Inr _ \<Rightarrow>
          Inr \<lparr>cdc = cdc', storeKey = storeKey', ak = authKeeper, resolver = resolver',
               paramsPool = NewMessagePool
                 \<lparr>Alpha = LegacyOneDec, Beta = LegacyOneDec, Gamma = LegacyOneDec,
                  Delta = LegacyOneDec, MinBaseGasPrice = LegacyOneDec,
                  MinLearningRate = LegacyOneDec, MaxLearningRate = LegacyOneDec\<rparr>,
               statePool = NewMessagePool
                 \<lparr>BaseGasPrice = LegacyZeroDec, LearningRate = LegacyZeroDec, Window = []\<rparr>,
               authority = authority'\<rparr>)"

definition GetAuthority :: "('c, 'k, 'a) Keeper \<Rightarrow> string" where
  "GetAuthority k = authority k"

definition GetEnabledHeight :: "('c, 'k, 'a) Keeper \<Rightarrow> Context \<Rightarrow> int64 \<times> error option" where
  "GetEnabledHeight k ctx =
     (case kvStore ctx KeyEnabledHeight of
        None \<Rightarrow> (- 1, None)
      | Some bz \<Rightarrow> (let (i, err) = ParseInt bz in (i, map_option StrconvError err)))"

definition SetEnabledHeight :: "('c, 'k, 'a) Keeper \<Rightarrow> Context \<Rightarrow> int64 \<Rightarrow> Context" where
  "SetEnabledHeight k ctx height =
     (let bz = FormatInt height
      in ctx\<lparr>kvStore := (kvStore ctx)(KeyEnabledHeight \<mapsto> bz)\<rparr>)"

definition ResolveToDenom ::
  "('c, 'k, 'a) Keeper \<Rightarrow> Context \<Rightarrow> DecCoin \<Rightarrow> string \<Rightarrow> DecCoin \<times> error option" where
  "ResolveToDenom k ctx coin denom =
     (case resolver k of
        None \<Rightarrow> (DecCoin_zero, Some ErrResolverNotSet)
      | Some r \<Rightarrow> ConvertToDenom r ctx coin denom)"

definition SetDenomResolver ::
  "('c, 'k, 'a) Keeper \<Rightarrow> DenomResolver option \<Rightarrow> ('c, 'k, 'a) Keeper" where
  "SetDenomResolver k resolver' = k\<lparr>resolver := resolver'\<rparr>"

definition GetState :: "Wire \<Rightarrow> ('c, 'k, 'a) Keeper \<Rightarrow> Context \<Rightarrow> State \<times> error option" where
  "GetState w k ctx =
     (let bz = kvStore ctx KeyState;
          (state, err) = State_Unmarshal w bz State_zero
      in case err of
           Some e \<Rightarrow> (State_zero, Some e)
         | None \<Rightarrow> (state, None))"

text \<open>
  The fast paths return the handle and the error, and with them the keeper (its pool has
  changed) and the context (the store handle may have been released). The call
  \<^verbatim>\<open>state.Release()\<close> is \<^verbatim>\<open>p.pool.put(p.Value)\<close> on the handle just obtained from
  the state pool.
\<close>

definition GetStateFast ::
  "Wire \<Rightarrow> nat option \<Rightarrow> ('c, 'k, 'a) Keeper \<Rightarrow> Context
     \<Rightarrow> (PooledMessage \<times> error option) \<times> ('c, 'k, 'a) Keeper \<times> Context" where
  "GetStateFast w pick k ctx =
     (let bz = kvStore ctx KeyState;
          (state, p1) = MessagePool_Get StatePool pick (statePool k);
          obj = Value state;
          p2 = p1\<lparr>cells := (cells p1)(obj := (cells p1 obj)\<lparr>Window := []\<rparr>)\<rparr>;
          (decoded, err) = State_Unmarshal w bz (cells p2 obj);
          p3 = p2\<lparr>cells := (cells p2)(obj := decoded)\<rparr>
      in case err of
           Some e \<Rightarrow>
             ((ZeroMessage, Some e), k\<lparr>statePool := MessagePool_put obj p3\<rparr>, releaseStore ctx)
         | None \<Rightarrow> ((state, None), k\<lparr>statePool := p3\<rparr>, releaseStore ctx))"

definition SetState ::
  "Wire \<Rightarrow> ('c, 'k, 'a) Keeper \<Rightarrow> Context \<Rightarrow> State \<Rightarrow> error option \<times> Context" where
  "SetState w k ctx state =
     (case State_Marshal w state of
        Inl err \<Rightarrow> (Some err, ctx)
      | Inr bz \<Rightarrow> (None, ctx\<lparr>kvStore := (kvStore ctx)(KeyState \<mapsto> bz)\<rparr>))"

definition GetParams :: "Wire \<Rightarrow> ('c, 'k, 'a) Keeper \<Rightarrow> Context \<Rightarrow> Params \<times> error option" where
  "GetParams w k ctx =
     (let bz = kvStore ctx KeyParams;
          (params, err) = Params_Unmarshal w bz Params_zero
      in case err of
           Some e \<Rightarrow> (Params_zero, Some e)
         | None \<Rightarrow> (params, None))"

definition GetParamsFast ::
  "Wire \<Rightarrow> nat option \<Rightarrow> ('c, 'k, 'a) Keeper \<Rightarrow> Context
     \<Rightarrow> (PooledMessage \<times> error option) \<times> ('c, 'k, 'a) Keeper \<times> Context" where
  "GetParamsFast w pick k ctx =
     (let bz = kvStore ctx KeyParams;
          (params, p1) = MessagePool_Get ParamsPool pick (paramsPool k);
          obj = Value params;
          (decoded, err) = Params_Unmarshal w bz (cells p1 obj);
          p2 = p1\<lparr>cells := (cells p1)(obj := decoded)\<rparr>
      in case err of
           Some e \<Rightarrow>
             ((ZeroMessage, Some e), k\<lparr>paramsPool := MessagePool_put obj p2\<rparr>, releaseStore ctx)
         | None \<Rightarrow> ((params, None), k\<lparr>paramsPool := p2\<rparr>, releaseStore ctx))"

definition SetParams ::
  "Wire \<Rightarrow> ('c, 'k, 'a) Keeper \<Rightarrow> Context \<Rightarrow> Params \<Rightarrow> error option \<times> Context" where
  "SetParams w k ctx params =
     (case Params_Marshal w params of
        Inl err \<Rightarrow> (Some err, ctx)
      | Inr bz \<Rightarrow> (None, ctx\<lparr>kvStore := (kvStore ctx)(KeyParams \<mapsto> bz)\<rparr>))"


subsection \<open>A fixed record encoding\<close>

text \<open>
  Modelled from the spec: the byte layout that the generated \<^verbatim>\<open>Marshal\<close> writes and
  \<^verbatim>\<open>Unmarshal\<close> reads is outside the source at hand. The spec asks for a fixed record
  encoding that is deterministic, that has \<^verbatim>\<open>Decode(Encode(v)) == v\<close> on valid records
  and whose decoder fails with \<open>MalformedRecord\<close> on bytes that are not a record of the
  expected shape (wrong field count or type, truncated buffer). \<open>record_wire\<close> is such an
  encoding: every field is written as decimal text followed by the terminator \<open>;\<close>. A
  decimal is written as its scaled integer, with a leading \<open>-\<close> when negative, and read
  back by \<open>decimal_int\<close>. A \<open>Window\<close> entry is written by \<open>formatBits\<close> and read back
  by \<open>ParseUint\<close>, so it must fit 64 bits. A state is its two decimals, the number of
  \<open>Window\<close> entries and then the entries; a parameter set is its seven decimals. A record
  with an unset decimal cannot be written. The absent (\<^verbatim>\<open>nil\<close>) buffer is read as the
  empty one.
\<close>

fun nat_text :: "nat \<Rightarrow> string" where
  "nat_text n =
     (if n < 10 then [char_of (48 + n)]
      else nat_text (n div 10) @ [char_of (48 + n mod 10)])"

declare nat_text.simps [simp del]

definition int_text :: "int \<Rightarrow> string" where
  "int_text i = (if i < 0 then CHR ''-'' # nat_text (nat (- i)) else nat_text (nat i))"

definition put_field :: "string \<Rightarrow> string" where
  "put_field t = t @ [CHR '';'']"

definition take_field :: "string \<Rightarrow> (string \<times> string) option" where
  \<comment> \<open>the text in front of the first terminator, and what follows the terminator\<close>
  "take_field s =
     (case dropWhile (\<lambda>c. c \<noteq> CHR '';'') s of
        [] \<Rightarrow> None
      | c # rest \<Rightarrow> Some (takeWhile (\<lambda>c. c \<noteq> CHR '';'') s, rest))"

definition take_int :: "string \<Rightarrow> (int \<times> string) option" where
  "take_int s =
     (case take_field s of
        None \<Rightarrow> None
      | Some (t, rest) \<Rightarrow>
          (case decimal_int t of None \<Rightarrow> None | Some i \<Rightarrow> Some (i, rest)))"

definition take_count :: "string \<Rightarrow> (nat \<times> string) option" where
  "take_count s =
     (case take_field s of
        None \<Rightarrow> None
      | Some (t, rest) \<Rightarrow>
          if t \<noteq> [] \<and> list_all is_digit t then Some (dec_val 0 t, rest) else None)"

definition take_entry :: "string \<Rightarrow> (uint64 \<times> string) option" where
  "take_entry s =
     (case take_field s of
        None \<Rightarrow> None
      | Some (t, rest) \<Rightarrow>
          (case ParseUint t of (u, None) \<Rightarrow> Some (u, rest) | (u, Some e) \<Rightarrow> None))"













subsection \<open>Sample values\<close>

text \<open>
  A small wire format, a store and a keeper on which the theorems below are exercised.
  The wire format knows one state and one parameter set; every other buffer is rejected
  by the decoders and every other record by the encoders. In the keeper, the state pool
  holds one idle instance whose \<open>Window\<close> still has three entries of an earlier use.
\<close>

definition sample_state :: State where
  "sample_state = \<lparr>BaseGasPrice = Some 5, LearningRate = Some 1, Window = [1, 2]\<rparr>"

definition sample_params :: Params where
  "sample_params = \<lparr>Alpha = Some 1, Beta = Some 2, Gamma = Some 3, Delta = Some 4,
     MinBaseGasPrice = Some 5, MinLearningRate = Some 6, MaxLearningRate = Some 7\<rparr>"

definition sample_wire :: Wire where
  "sample_wire =
     \<lparr>decodeState = (\<lambda>bz. if bz = Some ''state'' then Inr sample_state
                           else Inl (OtherError ''unexpected EOF'')),
      encodeState = (\<lambda>s. if s = sample_state then Inr ''state''
                          else Inl (OtherError ''cannot marshal'')),
      decodeParams = (\<lambda>bz. if bz = Some ''params'' then Inr sample_params
                            else Inl (OtherError ''unexpected EOF'')),
      encodeParams = (\<lambda>p. if p = sample_params then Inr ''params''
                           else Inl (OtherError ''cannot marshal''))\<rparr>"

definition empty_ctx :: Context where
  "empty_ctx = \<lparr>kvStore = Map.empty, storePooled = True, storeReleases = 0\<rparr>"

definition sample_ctx :: Context where
  "sample_ctx = \<lparr>kvStore = [KeyState \<mapsto> ''state'', KeyParams \<mapsto> ''params''],
     storePooled = True, storeReleases = 0\<rparr>"

definition corrupt_ctx :: Context where
  "corrupt_ctx = \<lparr>kvStore = [KeyState \<mapsto> ''x'', KeyParams \<mapsto> ''y'', KeyEnabledHeight \<mapsto> ''12a''],
     storePooled = False, storeReleases = 0\<rparr>"

definition sample_resolver :: DenomResolver where
  "sample_resolver = \<lparr>ConvertToDenom = (\<lambda>ctx coin denom. (coin\<lparr>Denom := denom\<rparr>, None))\<rparr>"

definition sample_keeper :: "(unit, unit, unit) Keeper" where
  "sample_keeper =
     \<lparr>cdc = (), storeKey = (), ak = (), resolver = None,
      paramsPool = NewMessagePool
        \<lparr>Alpha = LegacyOneDec, Beta = LegacyOneDec, Gamma = LegacyOneDec,
         Delta = LegacyOneDec, MinBaseGasPrice = LegacyOneDec,
         MinLearningRate = LegacyOneDec, MaxLearningRate = LegacyOneDec\<rparr>,
      statePool =
        \<lparr>New = \<lparr>BaseGasPrice = LegacyZeroDec, LearningRate = LegacyZeroDec, Window = []\<rparr>,
         cells = (\<lambda>_. \<lparr>BaseGasPrice = LegacyZeroDec, LearningRate = LegacyZeroDec, Window = []\<rparr>)
           (0 := \<lparr>BaseGasPrice = Some 9, LearningRate = Some 9, Window = [7, 8, 9]\<rparr>),
         allocated = 1, idle = [0]\<rparr>,
      authority = ''gov''\<rparr>"


section \<open>Decimal parsing and formatting\<close>

text \<open>
  The loop of \<open>ParseUint\<close> accepts exactly the digit strings whose value fits 64 bits,
  \<open>formatBits\<close> writes such a string, and \<open>ParseInt\<close> inverts \<open>FormatInt\<close> on every
  64-bit integer.
\<close>

lemma dec_val_Nil [simp]: "dec_val a [] = a"
  by (simp add: dec_val_def)

lemma dec_val_Cons [simp]: "dec_val a (c # cs) = dec_val (a * 10 + (of_char c - 48)) cs"
  by (simp add: dec_val_def)

lemma dec_val_append: "dec_val a (xs @ ys) = dec_val (dec_val a xs) ys"
  by (simp add: dec_val_def)

lemma dec_val_ge: "a \<le> dec_val a cs"
proof (induction cs arbitrary: a)
  case Nil
  show ?case by simp
next
  case (Cons c cs)
  have "a \<le> a * 10 + (of_char c - 48)" by simp
  also have "\<dots> \<le> dec_val (a * 10 + (of_char c - 48)) cs" by (rule Cons.IH)
  finally show ?case by simp
qed

lemma digit_of_digit: "is_digit c \<Longrightarrow> digit_of c = Some (of_char c - 48)"
  by (simp add: digit_of_def is_digit_def)

lemma digit_of_small: "digit_of c = Some d \<Longrightarrow> d < 10 \<Longrightarrow> is_digit c"
  by (auto simp: digit_of_def is_digit_def split: if_splits)

lemma cutoff10_val: "cutoff10 = 1844674407370955162"
  by (simp add: cutoff10_def maxUint64_def)

lemma not_gt_maxUint64 [simp]: "\<not> n > maxUint64"
  by (simp add: maxUint64_def)


lemma unat_step:
  fixes n :: uint64
  shows "unat (n * 10 + of_nat d) = (unat n * 10 + d) mod 2 ^ 64"
  by (simp add: unat_word_ariths unat_of_nat mod_simps)

lemma step_ok:
  fixes n :: uint64
  assumes "unat n * 10 + d < 2 ^ 64"
  shows "\<not> n \<ge> cutoff10" and "unat (n * 10 + of_nat d) = unat n * 10 + d"
    and "\<not> n * 10 + of_nat d < n * 10"
proof -
  from assms show "\<not> n \<ge> cutoff10"
    by (simp add: cutoff10_val word_le_nat_alt)
  from assms show *: "unat (n * 10 + of_nat d) = unat n * 10 + d"
    by (simp add: unat_step)
  have "unat (n * 10) = unat n * 10"
    using assms by (simp add: unat_word_ariths)
  with * show "\<not> n * 10 + of_nat d < n * 10"
    by (simp add: word_less_nat_alt)
qed

lemma step_inv:
  fixes n :: uint64
  assumes "\<not> n \<ge> cutoff10" "\<not> n * 10 + of_nat d < n * 10" "d < 10"
  shows "unat n * 10 + d < 2 ^ 64"
proof -
  from assms(1) have n: "unat n < 1844674407370955162"
    by (simp add: cutoff10_val word_le_nat_alt)
  then have n10: "unat (n * 10) = unat n * 10"
    by (simp add: unat_word_ariths)
  from assms(2) have "unat (n * 10) \<le> unat (n * 10 + of_nat d)"
    by (simp add: word_less_nat_alt)
  then have "unat n * 10 \<le> (unat n * 10 + d) mod 2 ^ 64"
    by (simp only: n10 unat_step)
  then have le: "unat n * 10 \<le> (unat n * 10 + d) mod 18446744073709551616"
    by simp
  show ?thesis
  proof (rule ccontr)
    assume "\<not> unat n * 10 + d < 2 ^ 64"
    then have ge: "18446744073709551616 \<le> unat n * 10 + d" by simp
    moreover from n assms(3) have "unat n * 10 + d - 18446744073709551616 < 18446744073709551616"
      by arith
    ultimately have "(unat n * 10 + d) mod 18446744073709551616
        = unat n * 10 + d - 18446744073709551616"
      by (simp add: le_mod_geq)
    with le ge assms(3) show False by arith
  qed
qed

lemma ParseUint_loop_ok:
  "list_all is_digit cs \<Longrightarrow> dec_val (unat n) cs < 2 ^ 64 \<Longrightarrow>
   ParseUint_loop s0 n cs = (of_nat (dec_val (unat n) cs), None)"
proof (induction cs arbitrary: n)
  case Nil
  then show ?case by simp
next
  case (Cons c cs)
  let ?d = "of_char c - 48 :: nat"
  from Cons.prems have c: "is_digit c" and cs: "list_all is_digit cs" by simp_all
  from c have d: "digit_of c = Some ?d" "?d < 10"
    by (simp add: digit_of_digit) (use c in \<open>auto simp: is_digit_def\<close>)
  have "unat n * 10 + ?d \<le> dec_val (unat n * 10 + ?d) cs" by (rule dec_val_ge)
  with Cons.prems(2) have fit: "unat n * 10 + ?d < 2 ^ 64" by simp
  note st = step_ok [OF fit]
  from Cons.prems(2) have "dec_val (unat (n * 10 + of_nat ?d)) cs < 2 ^ 64"
    by (simp add: st(2))
  from Cons.IH [OF cs this] show ?case
    using d st by (simp add: Let_def)
qed

lemma ParseUint_loop_None:
  "snd (ParseUint_loop s0 n cs) = None \<Longrightarrow>
   list_all is_digit cs \<and> dec_val (unat n) cs < 2 ^ 64"
proof (induction cs arbitrary: n)
  case Nil
  have "unat n < 2 ^ 64" using unsigned_less [of n] by simp
  then show ?case by simp
next
  case (Cons c cs)
  from Cons.prems obtain d where d: "digit_of c = Some d" "d < 10"
    and n: "\<not> n \<ge> cutoff10" and n1: "\<not> n * 10 + of_nat d < n * 10"
    and rest: "snd (ParseUint_loop s0 (n * 10 + of_nat d) cs) = None"
    by (auto simp: Let_def split: option.splits if_splits)
  from d have c: "is_digit c" by (rule digit_of_small)
  with d have d_eq: "d = of_char c - 48" by (simp add: digit_of_digit)
  from step_inv [OF n n1 d(2)] have fit: "unat n * 10 + d < 2 ^ 64" .
  from fit have "unat (n * 10 + of_nat d) = unat n * 10 + d" by (rule step_ok(2))
  with Cons.IH [OF rest]
  have "list_all is_digit cs \<and> dec_val (unat n * 10 + d) cs < 2 ^ 64" by simp
  with c show ?case by (simp add: d_eq)
qed

lemma div10_less:
  fixes u :: uint64
  shows "10 \<le> u \<Longrightarrow> unat (u div 10) < unat u"
  by (simp add: unat_div word_le_nat_alt)

lemma formatBits_append: "formatBits a u = formatBits [] u @ a"
proof (induction "unat u" arbitrary: u a rule: less_induct)
  case less
  show ?case
  proof (cases "10 \<le> u")
    case True
    let ?c = "char_of (48 + unat (u mod 10))"
    have "formatBits a u = formatBits (?c # a) (u div 10)"
      using True by (subst formatBits.simps) simp
    also have "\<dots> = formatBits [] (u div 10) @ ?c # a"
      by (rule less.hyps [OF div10_less [OF True]])
    also have "\<dots> = (formatBits [] (u div 10) @ [?c]) @ a"
      by simp
    also have "formatBits [] (u div 10) @ [?c] = formatBits [?c] (u div 10)"
      by (rule less.hyps [OF div10_less [OF True], symmetric])
    also have "\<dots> = formatBits [] u"
      using True by (subst (2) formatBits.simps) simp
    finally show ?thesis .
  next
    case False
    then show ?thesis by (subst (1 2) formatBits.simps) simp
  qed
qed

lemma formatBits_ge10:
  "10 \<le> u \<Longrightarrow> formatBits [] u = formatBits [] (u div 10) @ [char_of (48 + unat (u mod 10))]"
  by (subst formatBits.simps, subst formatBits_append) simp

lemma formatBits_lt10:
  "\<not> 10 \<le> u \<Longrightarrow> formatBits [] u = [char_of (48 + unat u)]"
  by (subst formatBits.simps) simp

lemma digit_char:
  fixes d :: nat
  assumes "d < 10"
  shows "is_digit (char_of (48 + d))" and "of_char (char_of (48 + d)) - 48 = d"
  using assms by (simp_all add: is_digit_def)

lemma formatBits_digits:
  "list_all is_digit (formatBits [] u) \<and> formatBits [] u \<noteq> []
   \<and> dec_val 0 (formatBits [] u) = unat u"
proof (induction "unat u" arbitrary: u rule: less_induct)
  case less
  show ?case
  proof (cases "10 \<le> u")
    case True
    have m: "unat (u mod 10) < 10"
      by (simp add: unat_mod)
    have "unat (u div 10) * 10 + unat (u mod 10) = unat u"
      by (simp add: unat_div unat_mod)
    with less.hyps [OF div10_less [OF True]] digit_char [OF m] show ?thesis
      by (simp add: formatBits_ge10 [OF True] dec_val_append)
  next
    case False
    then have "unat u < 10" by (simp add: word_le_nat_alt)
    from digit_char [OF this] show ?thesis
      by (simp add: formatBits_lt10 [OF False])
  qed
qed

lemma ParseUint_formatBits: "ParseUint (formatBits [] u) = (u, None)"
proof -
  let ?s = "formatBits [] u"
  have "dec_val (unat (0 :: uint64)) ?s < 2 ^ 64"
    using unsigned_less [of u] by (simp add: formatBits_digits)
  with formatBits_digits [of u] have "ParseUint_loop ?s 0 ?s = (of_nat (dec_val (unat (0::uint64)) ?s), None)"
    by (intro ParseUint_loop_ok) simp_all
  then show ?thesis
    by (simp add: ParseUint_def formatBits_digits)
qed

lemma digit_not_sign: "is_digit c \<Longrightarrow> c \<noteq> CHR ''+'' \<and> c \<noteq> CHR ''-''"
  by (auto simp: is_digit_def)

lemma hd_formatBits: "is_digit (hd (formatBits [] u))"
  using formatBits_digits [of u] by (cases "formatBits [] u") simp_all


lemma uint_by_sint:
  fixes i :: int64
  shows "uint i = (if sint i < 0 then sint i + 2 ^ 64 else sint i)"
proof -
  have lo: "- (2 ^ 63) \<le> sint i" using sint_greater_eq [of i] by simp
  have hi: "sint i < 2 ^ 63" using sint_less [of i] by simp
  have u: "uint i = sint i mod 2 ^ 64"
    using uint_sint [of i] by (simp add: take_bit_eq_mod)
  show ?thesis
  proof (cases "sint i < 0")
    case True
    have "(sint i + 2 ^ 64) mod 2 ^ 64 = sint i + 2 ^ 64"
      using lo True by (intro mod_pos_pos_trivial) simp_all
    then show ?thesis using True u by simp
  next
    case False
    have "sint i mod 2 ^ 64 = sint i"
      using hi False by (intro mod_pos_pos_trivial) simp_all
    then show ?thesis using False u by simp
  qed
qed

lemma nonneg_below_cutoff:
  fixes i :: int64
  assumes "\<not> sint i < 0"
  shows "\<not> (push_bit 63 1 :: uint64) \<le> i"
proof -
  have "uint i < 2 ^ 63"
    using assms sint_less [of i] by (simp add: uint_by_sint)
  then show ?thesis
    by (simp add: word_le_def)
qed

lemma neg_not_above_cutoff:
  fixes i :: int64
  assumes "sint i < 0"
  shows "\<not> (push_bit 63 1 :: uint64) < - i"
proof -
  have lo: "- (2 ^ 63) \<le> sint i" using sint_greater_eq [of i] by simp
  have "uint (- i) = (- uint i) mod 2 ^ 64"
    by (simp add: uint_word_ariths)
  also have "\<dots> = (- sint i) mod 2 ^ 64"
    using assms by (simp add: uint_by_sint mod_simps)
  also have "\<dots> = - sint i"
    using assms lo by (intro mod_pos_pos_trivial) simp_all
  finally have "uint (- i) \<le> 2 ^ 63" using lo by simp
  then show ?thesis
    by (simp add: word_less_def)
qed

lemma ParseInt_FormatInt: "ParseInt (FormatInt i) = (i, None)"
proof (cases "sint i < 0")
  case True
  have "ParseInt (CHR ''-'' # formatBits [] (- i)) = (i, None)"
    using neg_not_above_cutoff [OF True]
    by (simp add: ParseInt_def ParseUint_formatBits)
  with True show ?thesis by (simp add: FormatInt_def)
next
  case False
  let ?s = "formatBits [] i"
  have "?s \<noteq> []" by (simp add: formatBits_digits)
  moreover have "hd ?s \<noteq> CHR ''+''" "hd ?s \<noteq> CHR ''-''"
    using digit_not_sign [OF hd_formatBits [of i]] by simp_all
  ultimately have "ParseInt ?s = (i, None)"
    using nonneg_below_cutoff [OF False]
    by (simp add: ParseInt_def ParseUint_formatBits)
  with False show ?thesis by (simp add: FormatInt_def)
qed


lemma sint_of_small:
  fixes u :: uint64
  assumes "\<not> (push_bit 63 1 :: uint64) \<le> u"
  shows "sint u = int (unat u)"
proof -
  from assms have "uint u < 2 ^ 63" by (simp add: word_le_def)
  then have "\<not> sint u < 0"
    using sint_greater_eq [of u] by (auto simp: uint_by_sint split: if_splits)
  then have "uint u = sint u" by (simp add: uint_by_sint)
  then show ?thesis by simp
qed

lemma sint_neg_small:
  fixes u :: uint64
  assumes "\<not> (push_bit 63 1 :: uint64) < u"
  shows "sint (- u) = - int (unat u)"
proof -
  from assms have le: "uint u \<le> 2 ^ 63" by (simp add: word_less_def)
  show ?thesis
  proof (cases "u = 0")
    case True
    then show ?thesis by simp
  next
    case False
    then have pos: "0 < uint u" by (simp add: word_neq_0_conv word_less_def)
    have "uint (- u) = (- uint u) mod 2 ^ 64" by (simp add: uint_word_ariths)
    also have "\<dots> = (2 ^ 64 - uint u) mod 2 ^ 64" by (simp add: mod_simps)
    also have "\<dots> = 2 ^ 64 - uint u"
      using le pos by (intro mod_pos_pos_trivial) simp_all
    finally have u: "uint (- u) = 2 ^ 64 - uint u" .
    have "sint (- u) < 0"
    proof (rule ccontr)
      assume "\<not> sint (- u) < 0"
      then have "uint (- u) = sint (- u)" by (simp add: uint_by_sint)
      with u le sint_less [of "- u"] show False by simp
    qed
    with u have "sint (- u) = - uint u" by (simp add: uint_by_sint)
    then show ?thesis by simp
  qed
qed

lemma ParseUint_loop_range:
  "ParseUint_loop s0 n cs = (r, Some e) \<Longrightarrow> Err e = ErrRange \<Longrightarrow> r = maxUint64"
  by (induction cs arbitrary: n)
     (auto simp: Let_def syntaxError_def rangeError_def split: option.splits if_splits)

lemma maxUint64_above: "(push_bit 63 1 :: uint64) \<le> maxUint64" "(push_bit 63 1 :: uint64) < maxUint64"
  by (simp_all add: maxUint64_def)

lemma ParseInt_ok:
  assumes "decimal_int s = Some i" "- (2 ^ 63) \<le> i" "i < 2 ^ 63"
  shows "\<exists>h. ParseInt s = (h, None) \<and> sint h = i"
proof -
  define neg where "neg = (hd s = CHR ''-'')"
  define ds where "ds = (if hd s = CHR ''+'' \<or> hd s = CHR ''-'' then tl s else s)"
  from assms(1) have s: "s \<noteq> []"
    by (auto simp: decimal_int_def Let_def split: if_splits)
  with assms(1) have ds: "ds \<noteq> []" "list_all is_digit ds"
    and i: "i = (if neg then - int (dec_val 0 ds) else int (dec_val 0 ds))"
    by (auto simp: decimal_int_def Let_def neg_def ds_def split: if_splits)
  from i assms(2,3) have "dec_val 0 ds \<le> 2 ^ 63" by (auto split: if_splits)
  then have fit: "dec_val (unat (0::uint64)) ds < 2 ^ 64" by simp
  define un :: uint64 where "un = of_nat (dec_val 0 ds)"
  have un: "unat un = dec_val 0 ds"
    using fit by (simp add: un_def unat_of_nat)
  have pu: "ParseUint ds = (un, None)"
    using ParseUint_loop_ok [OF ds(2) fit, of ds] ds(1) by (simp add: ParseUint_def un_def)
  show ?thesis
  proof (cases neg)
    case True
    with i assms(2) have "unat un \<le> 2 ^ 63" by (simp add: un)
    then have c: "\<not> (push_bit 63 1 :: uint64) < un"
      by (simp add: word_less_nat_alt)
    have "ParseInt s = (- un, None)"
      using s True c pu by (simp add: ParseInt_def neg_def ds_def)
    moreover have "sint (- un) = i"
      using sint_neg_small [OF c] i True by (simp add: un)
    ultimately show ?thesis by blast
  next
    case False
    with i assms(3) have "unat un < 2 ^ 63" by (simp add: un)
    then have c: "\<not> (push_bit 63 1 :: uint64) \<le> un"
      by (simp add: word_le_nat_alt)
    have "ParseInt s = (un, None)"
      using s False c pu by (simp add: ParseInt_def neg_def ds_def)
    moreover have "sint un = i"
      using sint_of_small [OF c] i False by (simp add: un)
    ultimately show ?thesis by blast
  qed
qed

lemma ParseInt_None:
  assumes "snd (ParseInt s) = None"
  shows "\<exists>i. decimal_int s = Some i \<and> - (2 ^ 63) \<le> i \<and> i < 2 ^ 63"
proof -
  define neg where "neg = (hd s = CHR ''-'')"
  define ds where "ds = (if hd s = CHR ''+'' \<or> hd s = CHR ''-'' then tl s else s)"
  obtain un err where pu: "ParseUint ds = (un, err)" by (cases "ParseUint ds")
  from assms have s: "s \<noteq> []"
    by (auto simp: ParseInt_def split: if_splits)
  have err: "err = None"
  proof (cases err)
    case None
    then show ?thesis .
  next
    case (Some e)
    show ?thesis
    proof (cases "Err e = ErrRange")
      case True
      have "ds \<noteq> []"
        using pu Some True by (auto simp: ParseUint_def syntaxError_def split: if_splits)
      with pu Some have "ParseUint_loop ds 0 ds = (un, Some e)" by (simp add: ParseUint_def)
      from ParseUint_loop_range [OF this True] have "un = maxUint64" .
      with assms s pu Some True maxUint64_above show ?thesis
        by (auto simp: ParseInt_def neg_def ds_def split: if_splits)
    next
      case False
      with assms s pu Some show ?thesis
        by (auto simp: ParseInt_def neg_def ds_def split: if_splits)
    qed
  qed
  have ds: "ds \<noteq> []"
    using pu err by (auto simp: ParseUint_def split: if_splits)
  with pu err have "snd (ParseUint_loop ds 0 ds) = None" by (simp add: ParseUint_def)
  from ParseUint_loop_None [OF this] have dig: "list_all is_digit ds"
    and fit: "dec_val 0 ds < 2 ^ 64" by simp_all
  have un: "un = of_nat (dec_val 0 ds)"
    using ParseUint_loop_ok [OF dig, of 0 ds] fit pu ds by (simp add: ParseUint_def)
  then have u: "unat un = dec_val 0 ds" using fit by (simp add: unat_of_nat)
  have d: "decimal_int s = Some (if neg then - int (dec_val 0 ds) else int (dec_val 0 ds))"
    using s ds dig by (simp add: decimal_int_def neg_def ds_def)
  show ?thesis
  proof (cases neg)
    case True
    with assms s pu err have "\<not> (push_bit 63 1 :: uint64) < un"
      by (auto simp: ParseInt_def neg_def ds_def split: if_splits)
    then have "unat un \<le> 2 ^ 63" by (simp add: word_less_nat_alt)
    with d True u show ?thesis by simp
  next
    case False
    with assms s pu err have "\<not> (push_bit 63 1 :: uint64) \<le> un"
      by (auto simp: ParseInt_def neg_def ds_def split: if_splits)
    then have "unat un < 2 ^ 63" by (simp add: word_le_nat_alt)
    with d False u show ?thesis by simp
  qed
qed


section \<open>The pooled fast path\<close>

text \<open>
  Decoding into a used instance keeps its old entries in front of the decoded ones; taking
  an instance from the pool and putting it back leaves the set of checked-out instances
  as it was, whichever instance \<^verbatim>\<open>sync.Pool\<close> chose.
\<close>

lemma State_Unmarshal_appends:
  "decodeState w bz = Inr r \<Longrightarrow> Window (fst (State_Unmarshal w bz dst)) = Window dst @ Window r"
  by (simp add: State_Unmarshal_def)

lemma set_remove_nth:
  "i < length xs \<Longrightarrow> set (take i xs @ drop (Suc i) xs @ [xs ! i]) = set xs"
proof -
  assume "i < length xs"
  then have "xs = take i xs @ xs ! i # drop (Suc i) xs"
    by (rule id_take_nth_drop)
  then have "set xs = set (take i xs @ xs ! i # drop (Suc i) xs)" by simp
  then show ?thesis by auto
qed

lemma sync_Pool_Get_put_checked_out:
  assumes "sync_Pool_Get pick p = (obj, p')"
  shows "checked_out (MessagePool_put obj (p'\<lparr>cells := c\<rparr>)) = checked_out p"
    and "obj \<in> set (idle (MessagePool_put obj (p'\<lparr>cells := c\<rparr>)))"
proof -
  show "obj \<in> set (idle (MessagePool_put obj (p'\<lparr>cells := c\<rparr>)))"
    by (simp add: MessagePool_put_def)
  show "checked_out (MessagePool_put obj (p'\<lparr>cells := c\<rparr>)) = checked_out p"
  proof (cases "\<exists>i. pick = Some i \<and> i < length (idle p)")
    case True
    then obtain i where i: "pick = Some i" "i < length (idle p)" by blast
    with assms have "obj = idle p ! i" "p' = p\<lparr>idle := take i (idle p) @ drop (Suc i) (idle p)\<rparr>"
      by (simp_all add: sync_Pool_Get_def)
    with set_remove_nth [OF i(2)] show ?thesis
      by (simp add: checked_out_def MessagePool_put_def)
  next
    case False
    with assms have "obj = allocated p"
      "p' = p\<lparr>cells := (cells p)(allocated p := New p), allocated := Suc (allocated p)\<rparr>"
      by (cases pick; auto simp: sync_Pool_Get_def Let_def split: if_splits)+
    then show ?thesis
      by (auto simp: checked_out_def MessagePool_put_def less_Suc_eq)
  qed
qed


text \<open>
  Claim C1. \<open>GetStateFast\<close> empties the \<open>Window\<close> of the instance it obtained from the
  pool before it decodes into it. So whenever \<open>GetStateFast\<close> succeeds, whatever instance
  the pool handed out and whatever that instance still held from an earlier use, the
  \<open>Window\<close> of the returned instance consists of exactly the entries decoded from the
  bytes stored under the state key.
\<close>

theorem GetStateFast_Window_decoded:
  assumes "GetStateFast w pick k ctx = ((h, None), k', ctx')"
  shows "\<exists>r. decodeState w (kvStore ctx KeyState) = Inr r
           \<and> h = fst (MessagePool_Get StatePool pick (statePool k))
           \<and> Window (cells (statePool k') (Value h)) = Window r"
  using assms
  by (auto simp: GetStateFast_def MessagePool_Get_def State_Unmarshal_def Let_def
           split: prod.splits sum.splits option.splits)

theorem GetStateFast_Window_decoded_witness:
  "fst (GetStateFast sample_wire (Some 0) sample_keeper sample_ctx) = (Pooled 0 StatePool, None)
   \<and> Window (cells (statePool sample_keeper) 0) = [7, 8, 9]
   \<and> decodeState sample_wire (kvStore sample_ctx KeyState) = Inr sample_state
   \<and> Window (cells (statePool (fst (snd (GetStateFast sample_wire (Some 0) sample_keeper sample_ctx)))) 0)
       = [1, 2]"
proof -
  let ?X = "GetStateFast sample_wire (Some 0) sample_keeper sample_ctx"
  have fstX: "fst ?X = (Pooled 0 StatePool, None)"
    by (simp add: GetStateFast_def MessagePool_Get_def sync_Pool_Get_def State_Unmarshal_def
          sample_wire_def sample_keeper_def sample_ctx_def Let_def)
  then have hyp: "?X = ((Pooled 0 StatePool, None), fst (snd ?X), snd (snd ?X))"
    by (metis prod.collapse)
  have dec: "decodeState sample_wire (kvStore sample_ctx KeyState) = Inr sample_state"
    by (simp add: sample_wire_def sample_ctx_def)
  from GetStateFast_Window_decoded [OF hyp] dec fstX show ?thesis
    by (simp add: sample_state_def) (simp add: sample_keeper_def)
qed

text \<open>
  Claim C2. When the decode step fails, \<open>GetStateFast\<close> and \<open>GetParamsFast\<close> return the
  zero handle together with the decode error, and the instance they had obtained is back
  in its pool: it is among the idle instances of the pool afterwards, and the set of
  instances checked out of the pool is the same as before the call.
\<close>

theorem decode_failure_releases_instance:
  "(decodeState w (kvStore ctx KeyState) = Inl e \<longrightarrow>
      (let (res, k', ctx') = GetStateFast w pick k ctx;
           obj = fst (sync_Pool_Get pick (statePool k))
       in res = (ZeroMessage, Some e)
          \<and> obj \<in> set (idle (statePool k'))
          \<and> checked_out (statePool k') = checked_out (statePool k)))
   \<and> (decodeParams w (kvStore ctx KeyParams) = Inl e \<longrightarrow>
      (let (res, k', ctx') = GetParamsFast w pick k ctx;
           obj = fst (sync_Pool_Get pick (paramsPool k))
       in res = (ZeroMessage, Some e)
          \<and> obj \<in> set (idle (paramsPool k'))
          \<and> checked_out (paramsPool k') = checked_out (paramsPool k)))"
proof (intro conjI impI)
  assume d: "decodeState w (kvStore ctx KeyState) = Inl e"
  obtain obj p1 where g: "sync_Pool_Get pick (statePool k) = (obj, p1)"
    by (cases "sync_Pool_Get pick (statePool k)")
  let ?c = "(cells p1)(obj := (cells p1 obj)\<lparr>Window := []\<rparr>)"
  have "GetStateFast w pick k ctx =
      ((ZeroMessage, Some e), k\<lparr>statePool := MessagePool_put obj (p1\<lparr>cells := ?c\<rparr>)\<rparr>, releaseStore ctx)"
    using d g by (simp add: GetStateFast_def MessagePool_Get_def State_Unmarshal_def Let_def)
  with sync_Pool_Get_put_checked_out [OF g, of ?c] g
  show "let (res, k', ctx') = GetStateFast w pick k ctx;
            obj = fst (sync_Pool_Get pick (statePool k))
        in res = (ZeroMessage, Some e)
           \<and> obj \<in> set (idle (statePool k'))
           \<and> checked_out (statePool k') = checked_out (statePool k)"
    by simp
next
  assume d: "decodeParams w (kvStore ctx KeyParams) = Inl e"
  obtain obj p1 where g: "sync_Pool_Get pick (paramsPool k) = (obj, p1)"
    by (cases "sync_Pool_Get pick (paramsPool k)")
  let ?c = "(cells p1)(obj := cells p1 obj)"
  have "GetParamsFast w pick k ctx =
      ((ZeroMessage, Some e), k\<lparr>paramsPool := MessagePool_put obj (p1\<lparr>cells := ?c\<rparr>)\<rparr>, releaseStore ctx)"
    using d g by (simp add: GetParamsFast_def MessagePool_Get_def Params_Unmarshal_def Let_def)
  with sync_Pool_Get_put_checked_out [OF g, of ?c] g
  show "let (res, k', ctx') = GetParamsFast w pick k ctx;
            obj = fst (sync_Pool_Get pick (paramsPool k))
        in res = (ZeroMessage, Some e)
           \<and> obj \<in> set (idle (paramsPool k'))
           \<and> checked_out (paramsPool k') = checked_out (paramsPool k)"
    by simp
qed

theorem decode_failure_releases_instance_witness:
  "decodeState sample_wire (kvStore corrupt_ctx KeyState) = Inl (OtherError ''unexpected EOF'')
   \<and> decodeParams sample_wire (kvStore corrupt_ctx KeyParams) = Inl (OtherError ''unexpected EOF'')
   \<and> fst (GetStateFast sample_wire (Some 0) sample_keeper corrupt_ctx)
       = (ZeroMessage, Some (OtherError ''unexpected EOF''))
   \<and> idle (statePool (fst (snd (GetStateFast sample_wire (Some 0) sample_keeper corrupt_ctx)))) = [0]
   \<and> checked_out (statePool (fst (snd (GetStateFast sample_wire (Some 0) sample_keeper corrupt_ctx)))) = {}
   \<and> fst (GetParamsFast sample_wire None sample_keeper corrupt_ctx)
       = (ZeroMessage, Some (OtherError ''unexpected EOF''))
   \<and> idle (paramsPool (fst (snd (GetParamsFast sample_wire None sample_keeper corrupt_ctx)))) = [0]
   \<and> checked_out (paramsPool (fst (snd (GetParamsFast sample_wire None sample_keeper corrupt_ctx)))) = {}"
  using decode_failure_releases_instance
    [of sample_wire corrupt_ctx "OtherError ''unexpected EOF''" "Some 0" sample_keeper]
    decode_failure_releases_instance
    [of sample_wire corrupt_ctx "OtherError ''unexpected EOF''" None sample_keeper]
  by (simp add: GetStateFast_def GetParamsFast_def MessagePool_Get_def sync_Pool_Get_def
        State_Unmarshal_def Params_Unmarshal_def MessagePool_put_def checked_out_def
        NewMessagePool_def sample_wire_def sample_keeper_def corrupt_ctx_def Let_def)


section \<open>The fixed record encoding\<close>

text \<open>
  A field written by \<open>put_field\<close> is read back by \<open>take_field\<close>, since neither digits
  nor the sign contain the terminator; hence decoding inverts encoding on every record
  whose decimals are set.
\<close>

lemma nat_text_digits:
  "list_all is_digit (nat_text n) \<and> nat_text n \<noteq> [] \<and> dec_val 0 (nat_text n) = n"
proof (induction n rule: nat_text.induct)
  case (1 n)
  show ?case
  proof (cases "n < 10")
    case True
    from digit_char [OF True] show ?thesis
      by (subst (1 2 3) nat_text.simps) (simp add: True)
  next
    case False
    have m: "n mod 10 < 10" by simp
    have "n div 10 * 10 + n mod 10 = n" by simp
    with "1.IH" [OF False] digit_char [OF m] show ?thesis
      by (subst (1 2 3) nat_text.simps) (simp add: False dec_val_append)
  qed
qed

lemma not_digit_terminator: "\<not> is_digit CHR '';''"
  by (simp add: is_digit_def)

lemma take_field_put:
  assumes "CHR '';'' \<notin> set t"
  shows "take_field (put_field t @ rest) = Some (t, rest)"
proof -
  from assms have a: "\<And>x. x \<in> set t \<Longrightarrow> x \<noteq> CHR '';''" by blast
  have "dropWhile (\<lambda>c. c \<noteq> CHR '';'') (t @ CHR '';'' # rest) = CHR '';'' # rest"
    using a by (simp add: dropWhile_append2)
  moreover have "takeWhile (\<lambda>c. c \<noteq> CHR '';'') (t @ CHR '';'' # rest) = t"
    using a by (simp add: takeWhile_append2)
  ultimately show ?thesis
    by (simp add: take_field_def put_field_def)
qed

lemma digits_no_terminator: "list_all is_digit t \<Longrightarrow> CHR '';'' \<notin> set t"
  using not_digit_terminator by (auto simp: list_all_iff)

lemma int_text_no_terminator: "CHR '';'' \<notin> set (int_text i)"
  using digits_no_terminator [of "nat_text (nat (- i))"] digits_no_terminator [of "nat_text (nat i)"]
  by (simp add: int_text_def nat_text_digits)

lemma decimal_int_int_text: "decimal_int (int_text i) = Some i"
proof (cases "i < 0")
  case True
  then show ?thesis
    by (simp add: int_text_def decimal_int_def nat_text_digits)
next
  case False
  let ?s = "nat_text (nat i)"
  have "?s \<noteq> []" "is_digit (hd ?s)"
    using nat_text_digits [of "nat i"] by (cases ?s; simp)+
  with digit_not_sign [of "hd ?s"] False show ?thesis
    by (simp add: int_text_def decimal_int_def nat_text_digits)
qed

lemma take_int_put [simp]: "take_int (put_field (int_text i) @ rest) = Some (i, rest)"
  by (simp add: take_int_def take_field_put int_text_no_terminator decimal_int_int_text)

lemma take_count_put [simp]: "take_count (put_field (nat_text n) @ rest) = Some (n, rest)"
  by (simp add: take_count_def take_field_put digits_no_terminator nat_text_digits)

lemma take_entry_put [simp]: "take_entry (put_field (formatBits [] w) @ rest) = Some (w, rest)"
  by (simp add: take_entry_def take_field_put digits_no_terminator formatBits_digits
        ParseUint_formatBits)






section \<open>The plain paths\<close>




text \<open>
  Claim C4. When encoding fails, \<open>SetState\<close> and \<open>SetParams\<close> return the encode error
  and the context, with its store, is exactly what it was. When encoding succeeds they
  write exactly the encoded bytes under their key and nothing else. There is no third
  outcome.
\<close>

theorem Set_encode_failure_no_write:
  "(encodeState w v = Inl e \<longrightarrow> SetState w k ctx v = (Some e, ctx))
   \<and> (encodeState w v = Inr bz \<longrightarrow>
        SetState w k ctx v = (None, ctx\<lparr>kvStore := (kvStore ctx)(KeyState \<mapsto> bz)\<rparr>))
   \<and> (encodeParams w p = Inl e' \<longrightarrow> SetParams w k ctx p = (Some e', ctx))
   \<and> (encodeParams w p = Inr bz' \<longrightarrow>
        SetParams w k ctx p = (None, ctx\<lparr>kvStore := (kvStore ctx)(KeyParams \<mapsto> bz')\<rparr>))"
  by (simp add: SetState_def State_Marshal_def SetParams_def Params_Marshal_def)

theorem Set_encode_failure_no_write_witness:
  "encodeState sample_wire State_zero = Inl (OtherError ''cannot marshal'')
   \<and> SetState sample_wire sample_keeper sample_ctx State_zero
       = (Some (OtherError ''cannot marshal''), sample_ctx)
   \<and> encodeState sample_wire sample_state = Inr ''state''
   \<and> SetState sample_wire sample_keeper empty_ctx sample_state
       = (None, empty_ctx\<lparr>kvStore := (kvStore empty_ctx)(KeyState \<mapsto> ''state'')\<rparr>)
   \<and> encodeParams sample_wire Params_zero = Inl (OtherError ''cannot marshal'')
   \<and> SetParams sample_wire sample_keeper sample_ctx Params_zero
       = (Some (OtherError ''cannot marshal''), sample_ctx)
   \<and> encodeParams sample_wire sample_params = Inr ''params''
   \<and> SetParams sample_wire sample_keeper empty_ctx sample_params
       = (None, empty_ctx\<lparr>kvStore := (kvStore empty_ctx)(KeyParams \<mapsto> ''params'')\<rparr>)"
  using Set_encode_failure_no_write
    [of sample_wire State_zero "OtherError ''cannot marshal''" sample_keeper sample_ctx
       "''state''" Params_zero "OtherError ''cannot marshal''" "''params''"]
    Set_encode_failure_no_write
    [of sample_wire sample_state "OtherError ''cannot marshal''" sample_keeper empty_ctx
       "''state''" sample_params "OtherError ''cannot marshal''" "''params''"]
  by (simp add: sample_wire_def sample_state_def sample_params_def State_zero_def Params_zero_def)

text \<open>
  Claim C6. With no bytes under the state key, \<open>GetState\<close> returns what decoding the
  \<^verbatim>\<open>nil\<close> buffer into a zero-valued record reports: the decoded record with no error
  when the decoder accepts \<^verbatim>\<open>nil\<close>, the zero record with the decoder's error when it
  does not. No default is put in its place. Likewise \<open>GetParams\<close> with the params key.
\<close>

theorem Get_absent_key_decodes_nil:
  "(kvStore ctx KeyState = None \<longrightarrow>
      GetState w k ctx =
        (let (s, err) = State_Unmarshal w None State_zero
         in (if err = None then s else State_zero, err))
      \<and> GetState w k ctx =
        (case decodeState w None of Inl e \<Rightarrow> (State_zero, Some e) | Inr r \<Rightarrow> (r, None)))
   \<and> (kvStore ctx KeyParams = None \<longrightarrow>
      GetParams w k ctx =
        (let (p, err) = Params_Unmarshal w None Params_zero
         in (if err = None then p else Params_zero, err))
      \<and> GetParams w k ctx =
        (case decodeParams w None of Inl e \<Rightarrow> (Params_zero, Some e) | Inr r \<Rightarrow> (r, None)))"
  by (auto simp: GetState_def State_Unmarshal_def State_zero_def
        GetParams_def Params_Unmarshal_def split: sum.splits)

theorem Get_absent_key_decodes_nil_witness:
  "kvStore empty_ctx KeyState = None
   \<and> kvStore empty_ctx KeyParams = None
   \<and> decodeState sample_wire None = Inl (OtherError ''unexpected EOF'')
   \<and> GetState sample_wire sample_keeper empty_ctx = (State_zero, Some (OtherError ''unexpected EOF''))
   \<and> GetParams sample_wire sample_keeper empty_ctx = (Params_zero, Some (OtherError ''unexpected EOF''))"
  using Get_absent_key_decodes_nil [of empty_ctx sample_wire sample_keeper]
  by (simp add: empty_ctx_def sample_wire_def GetState_def GetParams_def
        State_Unmarshal_def Params_Unmarshal_def)

text \<open>
  Claim C7. Without a resolver, \<open>ResolveToDenom\<close> returns the zero coin and
  \<open>ErrResolverNotSet\<close>; with a resolver it returns exactly the pair the resolver's
  \<open>ConvertToDenom\<close> returns for the same arguments. Both also hold after
  \<open>SetDenomResolver\<close> has removed or installed the resolver.
\<close>

theorem ResolveToDenom_boundary:
  "(resolver k = None \<longrightarrow>
      ResolveToDenom k ctx coin denom = (DecCoin_zero, Some ErrResolverNotSet))
   \<and> (resolver k = Some r \<longrightarrow>
      ResolveToDenom k ctx coin denom = ConvertToDenom r ctx coin denom)
   \<and> ResolveToDenom (SetDenomResolver k None) ctx coin denom
        = (DecCoin_zero, Some ErrResolverNotSet)
   \<and> ResolveToDenom (SetDenomResolver k (Some r)) ctx coin denom
        = ConvertToDenom r ctx coin denom"
  by (simp add: ResolveToDenom_def SetDenomResolver_def)

theorem ResolveToDenom_boundary_witness:
  "resolver sample_keeper = None
   \<and> ResolveToDenom sample_keeper empty_ctx \<lparr>Denom = ''uatom'', Amount = Some 3\<rparr> ''stake''
       = (DecCoin_zero, Some ErrResolverNotSet)
   \<and> resolver (SetDenomResolver sample_keeper (Some sample_resolver)) = Some sample_resolver
   \<and> ResolveToDenom (SetDenomResolver sample_keeper (Some sample_resolver)) empty_ctx
        \<lparr>Denom = ''uatom'', Amount = Some 3\<rparr> ''stake''
       = (\<lparr>Denom = ''stake'', Amount = Some 3\<rparr>, None)"
  using ResolveToDenom_boundary
    [of sample_keeper empty_ctx "\<lparr>Denom = ''uatom'', Amount = Some 3\<rparr>" "''stake''" sample_resolver]
    ResolveToDenom_boundary
    [of "SetDenomResolver sample_keeper (Some sample_resolver)" empty_ctx
        "\<lparr>Denom = ''uatom'', Amount = Some 3\<rparr>" "''stake''" sample_resolver]
  by (simp add: sample_keeper_def sample_resolver_def SetDenomResolver_def)

text \<open>
  Claim C8. When the address check rejects the authority string, \<open>NewKeeper\<close> panics and
  no keeper is built; when the check accepts it, \<open>NewKeeper\<close> builds a keeper and
  \<open>GetAuthority\<close> on that keeper returns exactly the string given to the constructor.
\<close>

theorem NewKeeper_authority:
  "(validate a = Inl e \<longrightarrow>
      NewKeeper validate c sk acc r a = Inl (''invalid authority address: '' @ a))
   \<and> (validate a = Inr addr \<longrightarrow>
      (\<exists>k. NewKeeper validate c sk acc r a = Inr k \<and> GetAuthority k = a))"
  by (simp add: NewKeeper_def GetAuthority_def)


theorem NewKeeper_authority_witness:
  "(\<lambda>s. if s = ''cosmos1gov'' then Inr ''gov'' else Inl (OtherError ''decoding bech32 failed''))
      ''cosmos1gov'' = Inr ''gov''
   \<and> (\<lambda>s. if s = ''cosmos1gov'' then Inr ''gov'' else Inl (OtherError ''decoding bech32 failed''))
      ''bogus'' = Inl (OtherError ''decoding bech32 failed'')
   \<and> NewKeeper (\<lambda>s. if s = ''cosmos1gov'' then Inr ''gov''
                      else Inl (OtherError ''decoding bech32 failed''))
        () () () (None :: DenomResolver option) ''bogus''
       = Inl ''invalid authority address: bogus''
   \<and> map_sum id GetAuthority
        (NewKeeper (\<lambda>s. if s = ''cosmos1gov'' then Inr ''gov''
                      else Inl (OtherError ''decoding bech32 failed''))
           () () () (None :: DenomResolver option) ''cosmos1gov'')
       = Inr ''cosmos1gov''"
  using NewKeeper_authority
    [of "\<lambda>s. if s = ''cosmos1gov'' then Inr ''gov'' else Inl (OtherError ''decoding bech32 failed'')"
        "''bogus''" "OtherError ''decoding bech32 failed''" "()" "()" "()" None "''gov''"]
    NewKeeper_authority
    [of "\<lambda>s. if s = ''cosmos1gov'' then Inr ''gov'' else Inl (OtherError ''decoding bech32 failed'')"
        "''cosmos1gov''" "OtherError ''decoding bech32 failed''" "()" "()" "()" None "''gov''"]
  by auto

section \<open>The enabled height\<close>

text \<open>
  Claim C5. With no bytes under the enabled-height key, \<open>GetEnabledHeight\<close> returns
  \<open>-1\<close> and no error. With bytes that read as a decimal integer an \<open>int64\<close> can hold
  (an optional sign, then one or more digits), it returns that integer and no error; with
  any other bytes, a numeral outside the \<open>int64\<close> range among them, it returns an
  error. After \<open>SetEnabledHeight\<close> with 1000 it returns 1000 and no error.
\<close>

theorem GetEnabledHeight_spec:
  "(kvStore ctx KeyEnabledHeight = None \<longrightarrow> GetEnabledHeight k ctx = (- 1, None))
   \<and> (kvStore ctx KeyEnabledHeight = Some bz \<and> decimal_int bz = Some i
        \<and> - (2 ^ 63) \<le> i \<and> i < 2 ^ 63 \<longrightarrow>
        (\<exists>h. GetEnabledHeight k ctx = (h, None) \<and> sint h = i))
   \<and> (kvStore ctx KeyEnabledHeight = Some bz
        \<and> \<not> (\<exists>j. decimal_int bz = Some j \<and> - (2 ^ 63) \<le> j \<and> j < 2 ^ 63) \<longrightarrow>
        snd (GetEnabledHeight k ctx) \<noteq> None)
   \<and> GetEnabledHeight k (SetEnabledHeight k ctx 1000) = (1000, None)"
proof (intro conjI impI)
  assume "kvStore ctx KeyEnabledHeight = None"
  then show "GetEnabledHeight k ctx = (- 1, None)"
    by (simp add: GetEnabledHeight_def)
next
  assume a: "kvStore ctx KeyEnabledHeight = Some bz \<and> decimal_int bz = Some i
        \<and> - (2 ^ 63) \<le> i \<and> i < 2 ^ 63"
  then obtain h where "ParseInt bz = (h, None)" "sint h = i"
    using ParseInt_ok [of bz i] by blast
  with a show "\<exists>h. GetEnabledHeight k ctx = (h, None) \<and> sint h = i"
    by (simp add: GetEnabledHeight_def)
next
  assume a: "kvStore ctx KeyEnabledHeight = Some bz
        \<and> \<not> (\<exists>j. decimal_int bz = Some j \<and> - (2 ^ 63) \<le> j \<and> j < 2 ^ 63)"
  have "snd (ParseInt bz) \<noteq> None"
  proof
    assume "snd (ParseInt bz) = None"
    from ParseInt_None [OF this] a show False by blast
  qed
  with a show "snd (GetEnabledHeight k ctx) \<noteq> None"
    by (simp add: GetEnabledHeight_def split_beta)
next
  show "GetEnabledHeight k (SetEnabledHeight k ctx 1000) = (1000, None)"
    by (simp add: GetEnabledHeight_def SetEnabledHeight_def ParseInt_FormatInt)
qed

theorem GetEnabledHeight_spec_witness:
  "kvStore empty_ctx KeyEnabledHeight = None
   \<and> GetEnabledHeight sample_keeper empty_ctx = (- 1, None)
   \<and> kvStore (SetEnabledHeight sample_keeper empty_ctx 1000) KeyEnabledHeight = Some ''1000''
   \<and> decimal_int ''1000'' = Some 1000
   \<and> GetEnabledHeight sample_keeper (SetEnabledHeight sample_keeper empty_ctx 1000) = (1000, None)
   \<and> kvStore corrupt_ctx KeyEnabledHeight = Some ''12a''
   \<and> decimal_int ''12a'' = None
   \<and> snd (GetEnabledHeight sample_keeper corrupt_ctx) \<noteq> None
   \<and> decimal_int ''9223372036854775808'' = Some (2 ^ 63)
   \<and> snd (GetEnabledHeight sample_keeper
          (empty_ctx\<lparr>kvStore := [KeyEnabledHeight \<mapsto> ''9223372036854775808'']\<rparr>)) \<noteq> None"
proof -
  let ?big = "empty_ctx\<lparr>kvStore := [KeyEnabledHeight \<mapsto> ''9223372036854775808'']\<rparr>"
  have s: "kvStore (SetEnabledHeight sample_keeper empty_ctx 1000) KeyEnabledHeight = Some ''1000''"
    by (simp add: SetEnabledHeight_def) code_simp
  have d: "decimal_int ''1000'' = Some 1000"
    by code_simp
  have c: "kvStore corrupt_ctx KeyEnabledHeight = Some ''12a''"
    by (simp add: corrupt_ctx_def)
  have n: "decimal_int ''12a'' = None"
    by code_simp
  have e: "kvStore empty_ctx KeyEnabledHeight = None"
    by (simp add: empty_ctx_def)
  have b: "decimal_int ''9223372036854775808'' = Some (2 ^ 63)"
    by (simp add: decimal_int_def is_digit_def)
  have kb: "kvStore ?big KeyEnabledHeight = Some ''9223372036854775808''"
    by simp
  from GetEnabledHeight_spec [of empty_ctx sample_keeper "''1000''" 1000]
       GetEnabledHeight_spec [of corrupt_ctx sample_keeper "''12a''" 0]
       GetEnabledHeight_spec [of ?big sample_keeper "''9223372036854775808''" 0]
       s d c n e b kb
  show ?thesis by simp
qed

text \<open>
  Claim C10. \<open>SetEnabledHeight\<close> validates nothing: for every \<open>int64\<close> height it stores
  the decimal text of the height, and \<open>GetEnabledHeight\<close> then returns that height and no
  error. For \<open>-1\<close> the stored bytes are \<open>-1\<close> and the result of \<open>GetEnabledHeight\<close>
  is the same as on a store with no bytes under the key.
\<close>

theorem SetEnabledHeight_any_height:
  "kvStore (SetEnabledHeight k ctx h) KeyEnabledHeight = Some (FormatInt h)
   \<and> GetEnabledHeight k (SetEnabledHeight k ctx h) = (h, None)
   \<and> kvStore (SetEnabledHeight k ctx (- 1)) KeyEnabledHeight = Some ''-1''
   \<and> GetEnabledHeight k (SetEnabledHeight k ctx (- 1))
       = GetEnabledHeight k (ctx\<lparr>kvStore := (kvStore ctx)(KeyEnabledHeight := None)\<rparr>)"
proof -
  have r: "\<And>h. GetEnabledHeight k (SetEnabledHeight k ctx h) = (h, None)"
    by (simp add: GetEnabledHeight_def SetEnabledHeight_def ParseInt_FormatInt)
  have "FormatInt (- 1) = ''-1''" by code_simp
  then have "kvStore (SetEnabledHeight k ctx (- 1)) KeyEnabledHeight = Some ''-1''"
    by (simp add: SetEnabledHeight_def)
  moreover have "GetEnabledHeight k (ctx\<lparr>kvStore := (kvStore ctx)(KeyEnabledHeight := None)\<rparr>)
      = (- 1, None)"
    by (simp add: GetEnabledHeight_def)
  moreover have "kvStore (SetEnabledHeight k ctx h) KeyEnabledHeight = Some (FormatInt h)"
    by (simp add: SetEnabledHeight_def)
  ultimately show ?thesis using r by simp
qed

theorem SetEnabledHeight_any_height_witness:
  "GetEnabledHeight sample_keeper (SetEnabledHeight sample_keeper sample_ctx (- 1)) = (- 1, None)
   \<and> GetEnabledHeight sample_keeper sample_ctx = (- 1, None)
   \<and> GetEnabledHeight sample_keeper (SetEnabledHeight sample_keeper sample_ctx 0) = (0, None)"
proof -
  have "GetEnabledHeight sample_keeper sample_ctx = (- 1, None)"
    by (simp add: GetEnabledHeight_def sample_ctx_def)
  with SetEnabledHeight_any_height [of sample_keeper sample_ctx "- 1"]
    SetEnabledHeight_any_height [of sample_keeper sample_ctx 0]
  show ?thesis by simp
qed

end
